theory Spec2Isabelle
  imports Complex_Main "HOL-Library.Log_Nat"
begin

section \<open>Data model of the document reader\<close>

text \<open>
  The host component \<^verbatim>\<open>DocumentReader\<close> (\<^verbatim>\<open>src/app/page.tsx\<close>) keeps its
  state in twelve \<^verbatim>\<open>useState\<close> cells. A browser \<^verbatim>\<open>File\<close> is seen by the
  host only through its \<^verbatim>\<open>name\<close> and its \<^verbatim>\<open>type\<close> (the declared media type,
  the empty string when the browser knows none). JavaScript numbers are modelled as
  exact numbers: page numbers and rotation as \<open>int\<close>, zoom, contrast, brightness and
  scroll speed as \<open>real\<close>. The rounding of IEEE doubles is modelled where it decides
  a result, in the sepia transform of the canvas viewer.
\<close>

record File =
  name :: string
  type :: string

datatype FileType = Pdf | Word | Text

datatype Theme = Dark | Sepia | HighContrast

record DocumentReader =
  documentFile :: "File option"
  fileType :: "FileType option"
  currentPage :: int
  totalPages :: int
  zoom :: real
  rotation :: int
  isFullscreen :: bool
  theme :: Theme
  autoScroll :: bool
  scrollSpeed :: real
  contrast :: real
  brightness :: real

text \<open>The initial values of the \<^verbatim>\<open>useState\<close> cells (page.tsx, lines 47-58).\<close>

definition initialState :: DocumentReader where
  "initialState =
     \<lparr>documentFile = None, fileType = None, currentPage = 1, totalPages = 0,
      zoom = 1.0, rotation = 0, isFullscreen = False, theme = Dark,
      autoScroll = False, scrollSpeed = 1, contrast = 1.0, brightness = 1.0\<rparr>"

section \<open>Format detection\<close>

text \<open>\<^verbatim>\<open>String.prototype.endsWith\<close>: the last characters of the string are the
  given suffix (case-sensitive).\<close>

definition endsWith :: "string \<Rightarrow> string \<Rightarrow> bool" where
  "endsWith s suf =
     (length suf \<le> length s \<and> drop (length s - length suf) s = suf)"

text \<open>\<^verbatim>\<open>getFileType\<close> (page.tsx, lines 90-104); \<^verbatim>\<open>null\<close> is \<open>None\<close>.\<close>

definition getFileType :: "File \<Rightarrow> FileType option" where
  "getFileType file =
     (if type file = ''application/pdf'' then Some Pdf
      else if type file = ''application/vnd.openxmlformats-officedocument.wordprocessingml.document''
              \<or> type file = ''application/msword''
              \<or> endsWith (name file) ''.docx''
              \<or> endsWith (name file) ''.doc''
      then Some Word
      else if type file = ''text/plain'' \<or> endsWith (name file) ''.txt''
      then Some Text
      else None)"

text \<open>
  The detection contract in the specification's words, for comparison with
  \<open>getFileType\<close>: first an exact match of the declared media type against the known
  signatures of the three formats, then the filename extension
  (\<^verbatim>\<open>.pdf\<close>, \<^verbatim>\<open>.docx\<close>/\<^verbatim>\<open>.doc\<close>, \<^verbatim>\<open>.txt\<close>), and Unsupported otherwise.
\<close>

definition mediaTypeMatch :: "File \<Rightarrow> FileType option" where
  "mediaTypeMatch file =
     (if type file = ''application/pdf'' then Some Pdf
      else if type file = ''application/vnd.openxmlformats-officedocument.wordprocessingml.document''
              \<or> type file = ''application/msword''
      then Some Word
      else if type file = ''text/plain'' then Some Text
      else None)"

definition extensionMatch :: "File \<Rightarrow> FileType option" where
  "extensionMatch file =
     (if endsWith (name file) ''.pdf'' then Some Pdf
      else if endsWith (name file) ''.docx'' \<or> endsWith (name file) ''.doc'' then Some Word
      else if endsWith (name file) ''.txt'' then Some Text
      else None)"

definition detect_spec :: "File \<Rightarrow> FileType option" where
  "detect_spec file =
     (case mediaTypeMatch file of
        Some t \<Rightarrow> Some t
      | None \<Rightarrow> extensionMatch file)"

section \<open>Selecting a file\<close>

text \<open>
  \<^verbatim>\<open>handleFileSelect\<close> (page.tsx, lines 106-119) and \<^verbatim>\<open>handleDrop\<close>
  (lines 121-135). The argument is the first file of the event, \<open>None\<close> when the
  event carries no file. The result is the new host state and the text shown by
  \<^verbatim>\<open>alert\<close>, if any.
\<close>

definition handleFileSelect :: "File option \<Rightarrow> DocumentReader \<Rightarrow> DocumentReader \<times> string option" where
  "handleFileSelect file s =
     (case file of
        None \<Rightarrow> (s, None)
      | Some f \<Rightarrow>
          (case getFileType f of
             Some t \<Rightarrow>
               (s\<lparr>documentFile := Some f, fileType := Some t, currentPage := 1, totalPages := 0\<rparr>,
                None)
           | None \<Rightarrow>
               (s, Some ''Please select a valid PDF, Word document, or text file'')))"

definition handleDrop :: "File option \<Rightarrow> DocumentReader \<Rightarrow> DocumentReader \<times> string option" where
  "handleDrop file s =
     (case file of
        None \<Rightarrow> (s, None)
      | Some f \<Rightarrow>
          (case getFileType f of
             Some t \<Rightarrow>
               (s\<lparr>documentFile := Some f, fileType := Some t, currentPage := 1, totalPages := 0\<rparr>,
                None)
           | None \<Rightarrow>
               (s, Some ''Please select a valid PDF, Word document, or text file'')))"

text \<open>\<^verbatim>\<open>handleGoHome\<close> (page.tsx, lines 141-150).\<close>

definition handleGoHome :: "DocumentReader \<Rightarrow> DocumentReader" where
  "handleGoHome s = s\<lparr>documentFile := None, fileType := None, currentPage := 1, totalPages := 0\<rparr>"

section \<open>Host commands\<close>

text \<open>
  The zoom, rotation and navigation commands of the host (page.tsx, lines 166-178).
  Each is a functional state update \<^verbatim>\<open>setX((prev) => ...)\<close>; \<^verbatim>\<open>Math.min\<close> and
  \<^verbatim>\<open>Math.max\<close> are \<open>min\<close> and \<open>max\<close>. The rotation is never negative, so
  JavaScript's \<^verbatim>\<open>%\<close> agrees with \<open>mod\<close>.
\<close>

definition zoomIn :: "DocumentReader \<Rightarrow> DocumentReader" where
  "zoomIn s = s\<lparr>zoom := min (zoom s + 0.25) 3.0\<rparr>"

definition zoomOut :: "DocumentReader \<Rightarrow> DocumentReader" where
  "zoomOut s = s\<lparr>zoom := max (zoom s - 0.25) 0.5\<rparr>"

definition resetZoom :: "DocumentReader \<Rightarrow> DocumentReader" where
  "resetZoom s = s\<lparr>zoom := 1.0\<rparr>"

definition rotate :: "DocumentReader \<Rightarrow> DocumentReader" where
  "rotate s = s\<lparr>rotation := (rotation s + 90) mod 360\<rparr>"

definition nextPage :: "DocumentReader \<Rightarrow> DocumentReader" where
  "nextPage s = s\<lparr>currentPage := min (currentPage s + 1) (totalPages s)\<rparr>"

definition prevPage :: "DocumentReader \<Rightarrow> DocumentReader" where
  "prevPage s = s\<lparr>currentPage := max (currentPage s - 1) 1\<rparr>"

definition resetVisualSettings :: "DocumentReader \<Rightarrow> DocumentReader" where
  "resetVisualSettings s = s\<lparr>contrast := 1.0, brightness := 1.0, zoom := 1.0\<rparr>"

text \<open>The switch of the settings sheet: \<^verbatim>\<open>onCheckedChange={setAutoScroll}\<close>
  (page.tsx, line 472).\<close>

definition setAutoScroll :: "bool \<Rightarrow> DocumentReader \<Rightarrow> DocumentReader" where
  "setAutoScroll b s = s\<lparr>autoScroll := b\<rparr>"

text \<open>The page invariant of the specification's data model.\<close>

definition pageInvariant :: "DocumentReader \<Rightarrow> bool" where
  "pageInvariant s = (if 0 < totalPages s then 1 \<le> currentPage s \<and> currentPage s \<le> totalPages s else True)"

section \<open>The PDF viewers\<close>

text \<open>
  The repository has two \<^verbatim>\<open>PDFViewer\<close> components with the same props. The host
  mounts the iframe viewer of \<^verbatim>\<open>src/components/pdf-viewer-alternative.tsx\<close>
  (page.tsx, line 39), with \<^verbatim>\<open>onPageChange = setCurrentPage\<close> and
  \<^verbatim>\<open>onTotalPagesChange = setTotalPages\<close>; the canvas viewer (\<^verbatim>\<open>src/unnamed/part_000\<close>,
  from line 189) decodes the file with PDF.js.

  The decoder is an external collaborator: \<^verbatim>\<open>getDocument(...).promise\<close> either
  resolves to a document, of which the viewer reads \<^verbatim>\<open>numPages\<close>, or rejects.
  The outcome is a parameter of the model, \<open>None\<close> for a rejection.
\<close>

record PdfDoc =
  numPages :: int

record CanvasPDFViewer =
  isLoading :: bool
  pdfDoc :: "PdfDoc option"

record IframePDFViewer =
  pdfUrl :: string
  iframeIsLoading :: bool

text \<open>\<^verbatim>\<open>loadPDF\<close> of the canvas viewer (part_000, lines 223-246): on success it stores
  the document and reports \<^verbatim>\<open>pdf.numPages\<close>; the \<^verbatim>\<open>catch\<close> branch only logs.\<close>

definition loadPDF_canvas ::
  "PdfDoc option \<Rightarrow> CanvasPDFViewer \<times> DocumentReader \<Rightarrow> CanvasPDFViewer \<times> DocumentReader" where
  "loadPDF_canvas outcome vh =
     (case outcome of
        Some pdf \<Rightarrow>
          ((fst vh)\<lparr>isLoading := False, pdfDoc := Some pdf\<rparr>,
           (snd vh)\<lparr>totalPages := numPages pdf\<rparr>)
      | None \<Rightarrow> ((fst vh)\<lparr>isLoading := False\<rparr>, snd vh))"

text \<open>\<^verbatim>\<open>loadPDF\<close> of the iframe viewer (pdf-viewer-alternative.tsx, lines 38-64):
  the file is not decoded; an object URL (the first argument) is stored and the
  placeholder 100 is reported.\<close>

definition loadPDF_iframe ::
  "string \<Rightarrow> IframePDFViewer \<times> DocumentReader \<Rightarrow> IframePDFViewer \<times> DocumentReader" where
  "loadPDF_iframe url vh =
     ((fst vh)\<lparr>pdfUrl := url, iframeIsLoading := False\<rparr>,
      (snd vh)\<lparr>totalPages := 100\<rparr>)"

subsection \<open>Auto scroll\<close>

text \<open>
  Both viewers install \<^verbatim>\<open>setInterval(tick, 3000 / scrollSpeed)\<close> in an effect
  (part_000, lines 308-327; pdf-viewer-alternative.tsx, lines 66-80).
  \<open>autoScrollInterval\<close> is the period of the installed timer in milliseconds,
  \<open>None\<close> when the effect installs none; \<open>autoScrollTick\<close> is the state update
  \<^verbatim>\<open>onPageChange((prev) => ...)\<close> of one firing. The scroll speed comes from a
  slider with minimum 0.5, so the division is never by zero. When a firing happens
  is not part of the model.
\<close>

definition autoScrollInterval_canvas :: "CanvasPDFViewer \<Rightarrow> DocumentReader \<Rightarrow> real option" where
  "autoScrollInterval_canvas v h =
     (if autoScroll h \<and> pdfDoc v \<noteq> None then Some (3000 / scrollSpeed h) else None)"

definition autoScrollTick_canvas :: "PdfDoc \<Rightarrow> DocumentReader \<Rightarrow> DocumentReader" where
  "autoScrollTick_canvas pdf h =
     h\<lparr>currentPage := (if currentPage h \<ge> numPages pdf then 1 else currentPage h + 1)\<rparr>"

definition autoScrollInterval_iframe :: "DocumentReader \<Rightarrow> real option" where
  "autoScrollInterval_iframe h =
     (if autoScroll h then Some (3000 / scrollSpeed h) else None)"

definition autoScrollTick_iframe :: "DocumentReader \<Rightarrow> DocumentReader" where
  "autoScrollTick_iframe h = h\<lparr>currentPage := currentPage h + 1\<rparr>"

subsection \<open>Sepia post-processing of the canvas\<close>

text \<open>
  The sepia branch of \<^verbatim>\<open>renderPage\<close> (part_000, lines 286-302). The pixel data is
  a \<^verbatim>\<open>Uint8ClampedArray\<close> of bytes \<^verbatim>\<open>r, g, b, a, r, g, b, a, ...\<close>. The
  right-hand sides are computed in IEEE double arithmetic and rounded to a byte by
  the store into the array. Here the rounding of doubles decides the stored byte
  (a sum such as \<open>1 * 0.393 + 31 * 0.769 + 12 * 0.189\<close> is 26.5 exactly and
  26.500000000000004 in doubles), so it is part of the model.
\<close>

text \<open>Rounding to the nearest integer, a tie to the even one.\<close>

definition roundHalfEven :: "real \<Rightarrow> int" where
  "roundHalfEven x =
     (let f = \<lfloor>x\<rfloor> in
      if x < of_int f + 1 / 2 then f
      else if of_int f + 1 / 2 < x then f + 1
      else if even f then f else f + 1)"

text \<open>
  Rounding of a real number to the nearest IEEE binary64 number, ties to even.
  In units of \<open>2^-1074\<close> (the smallest subnormal), a number whose integer part has
  \<open>n\<close> bits is rounded to a multiple of \<open>2^(n - 53)\<close>, which keeps 53 significant
  bits; below 53 bits (the subnormal range) it is rounded to a multiple of the
  unit. Overflow to infinity is not modelled: no value of the sepia transform
  reaches \<open>2^1024\<close>.
\<close>

definition round64 :: "real \<Rightarrow> real" where
  "round64 x =
     (let y = \<bar>x\<bar> * 2 ^ 1074;
          k = floorlog 2 (nat \<lfloor>y\<rfloor>) - 53
      in sgn x * (of_int (roundHalfEven (y / 2 ^ k)) * 2 ^ k / 2 ^ 1074))"

text \<open>The multiplication and addition of doubles: the exact result, rounded.\<close>

definition mul64 :: "real \<Rightarrow> real \<Rightarrow> real" where
  "mul64 x y = round64 (x * y)"

definition add64 :: "real \<Rightarrow> real \<Rightarrow> real" where
  "add64 x y = round64 (x + y)"

text \<open>
  The three right-hand sides, \<^verbatim>\<open>Math.min(255, r * 0.393 + g * 0.769 + b * 0.189)\<close>
  and its two siblings. A decimal literal denotes the double nearest to it; the
  bytes \<open>r\<close>, \<open>g\<close>, \<open>b\<close> and 255 are doubles as they are; the sum associates to the
  left; \<^verbatim>\<open>Math.min\<close> is exact.
\<close>

definition sepiaR :: "nat \<Rightarrow> nat \<Rightarrow> nat \<Rightarrow> real" where
  "sepiaR r g b =
     min 255 (add64 (add64 (mul64 (real r) (round64 0.393)) (mul64 (real g) (round64 0.769)))
                    (mul64 (real b) (round64 0.189)))"

definition sepiaG :: "nat \<Rightarrow> nat \<Rightarrow> nat \<Rightarrow> real" where
  "sepiaG r g b =
     min 255 (add64 (add64 (mul64 (real r) (round64 0.349)) (mul64 (real g) (round64 0.686)))
                    (mul64 (real b) (round64 0.168)))"

definition sepiaB :: "nat \<Rightarrow> nat \<Rightarrow> nat \<Rightarrow> real" where
  "sepiaB r g b =
     min 255 (add64 (add64 (mul64 (real r) (round64 0.272)) (mul64 (real g) (round64 0.534)))
                    (mul64 (real b) (round64 0.131)))"

text \<open>The conversion of a store into a \<^verbatim>\<open>Uint8ClampedArray\<close>: clamp to
  \<open>[0, 255]\<close>, then round to the nearest integer, a tie to the even one.\<close>

definition toUint8Clamp :: "real \<Rightarrow> nat" where
  "toUint8Clamp x = nat (roundHalfEven (max 0 (min 255 x)))"

text \<open>
  The loop \<^verbatim>\<open>for (let i = 0; i < data.length; i += 4)\<close>. The alpha byte is not
  written. The length of image data is a multiple of four; on a shorter last group
  JavaScript reads \<^verbatim>\<open>undefined\<close>, the sums are \<^verbatim>\<open>NaN\<close>, stored as 0, and writes
  past the end are ignored.
\<close>

fun sepiaLoop :: "nat list \<Rightarrow> nat list" where
  "sepiaLoop (r # g # b # a # rest) =
     toUint8Clamp (sepiaR r g b) # toUint8Clamp (sepiaG r g b) # toUint8Clamp (sepiaB r g b)
       # a # sepiaLoop rest"
| "sepiaLoop [r, g, b] =
     [toUint8Clamp (sepiaR r g b), toUint8Clamp (sepiaG r g b), toUint8Clamp (sepiaB r g b)]"
| "sepiaLoop [r, g] = [0, 0]"
| "sepiaLoop [r] = [0]"
| "sepiaLoop [] = []"

text \<open>The clamp of the specification: each channel of the matrix product is
  clamped to \<open>[0, 255]\<close>.\<close>

definition clamp255 :: "real \<Rightarrow> real" where
  "clamp255 x = max 0 (min 255 x)"

text \<open>Rounding to a multiple of \<open>2^-p\<close>; \<open>round64\<close> is \<open>roundTo p\<close> for the \<open>p\<close> that the
  size of its argument selects.\<close>

definition roundTo :: "nat \<Rightarrow> real \<Rightarrow> real" where
  "roundTo p x = of_int (roundHalfEven (x * 2 ^ p)) / 2 ^ p"

section \<open>Text opacity of the Word and text viewers\<close>

text \<open>
  A CSS colour \<^verbatim>\<open>rgba(r, g, b, a)\<close> is a tuple. \<^verbatim>\<open>getContentStyles\<close> of the Word
  viewer (part_000, lines 79-142) builds a style sheet; the model keeps the colour
  of each rule (headings, body text, bold text, and lists in the default theme)
  and leaves out the weights, margins and shadows.
\<close>

type_synonym rgba = "nat \<times> nat \<times> nat \<times> real"

definition alpha :: "rgba \<Rightarrow> real" where
  "alpha col = snd (snd (snd col))"

definition textOpacity :: "real \<Rightarrow> real" where
  "textOpacity c = min 1 (0.7 + (c - 1) * 0.3)"

definition headingOpacity :: "real \<Rightarrow> real" where
  "headingOpacity c = min 1 (0.9 + (c - 1) * 0.1)"

record ContentStyles =
  headingColor :: rgba
  bodyColor :: rgba
  strongColor :: rgba
  listColor :: "rgba option"

definition getContentStyles :: "Theme \<Rightarrow> real \<Rightarrow> ContentStyles" where
  "getContentStyles th c =
     (case th of
        Sepia \<Rightarrow>
          \<lparr>headingColor = (244, 228, 193, headingOpacity c),
           bodyColor = (232, 213, 183, textOpacity c),
           strongColor = (244, 228, 193, headingOpacity c),
           listColor = None\<rparr>
      | HighContrast \<Rightarrow>
          \<lparr>headingColor = (255, 255, 255, headingOpacity c),
           bodyColor = (255, 255, 255, textOpacity c),
           strongColor = (255, 255, 255, headingOpacity c),
           listColor = None\<rparr>
      | Dark \<Rightarrow>
          \<lparr>headingColor = (249, 250, 251, headingOpacity c),
           bodyColor = (229, 231, 235, textOpacity c),
           strongColor = (243, 244, 246, headingOpacity c),
           listColor = Some (229, 231, 235, textOpacity c)\<rparr>)"

text \<open>\<^verbatim>\<open>getTextColor\<close> of the text viewer (pdf-viewer-alternative.tsx,
  lines 221-232).\<close>

definition getTextColor :: "Theme \<Rightarrow> real \<Rightarrow> rgba" where
  "getTextColor th c =
     (let textOpacity = min 1 (0.8 + (c - 1) * 0.2) in
      case th of
        Sepia \<Rightarrow> (232, 213, 183, textOpacity)
      | HighContrast \<Rightarrow> (255, 255, 255, textOpacity)
      | Dark \<Rightarrow> (229, 231, 235, textOpacity))"

subsection \<open>A session of the host with the iframe viewer\<close>

text \<open>
  The host state after these events, from the initial state: the user selects
  \<^verbatim>\<open>book.pdf\<close> with media type \<^verbatim>\<open>application/pdf\<close>; the mounted (iframe) viewer
  runs \<^verbatim>\<open>loadPDF\<close>; the user switches auto scroll on.
\<close>

definition pdfSession :: DocumentReader where
  "pdfSession =
     setAutoScroll True
       (snd (loadPDF_iframe ''blob:book''
          (\<lparr>pdfUrl = [], iframeIsLoading = True\<rparr>,
           fst (handleFileSelect (Some \<lparr>name = ''book.pdf'', type = ''application/pdf''\<rparr>)
                  initialState))))"

section \<open>Zoom commands\<close>

lemma zoom_zoomIn: "zoom (zoomIn s) = min (zoom s + 1 / 4) 3"
  by (simp add: zoomIn_def)

lemma zoom_zoomOut: "zoom (zoomOut s) = max (zoom s - 1 / 4) (1 / 2)"
  by (simp add: zoomOut_def)

text \<open>Pressing zoom-in \<open>n\<close> times adds \<open>n\<close> quarters, up to the bound 3.\<close>

lemma zoomIn_funpow:
  "zoom s \<le> 3 \<Longrightarrow> zoom ((zoomIn ^^ n) s) = min (zoom s + real n / 4) 3"
proof (induction n)
  case 0
  then show ?case by simp
next
  case (Suc n)
  have "zoom ((zoomIn ^^ Suc n) s) = min (zoom ((zoomIn ^^ n) s) + 1 / 4) 3"
    by (simp add: zoom_zoomIn)
  also have "\<dots> = min (min (zoom s + real n / 4) 3 + 1 / 4) 3"
    using Suc by simp
  also have "\<dots> = min (zoom s + (real n + 1) / 4) 3"
    by argo
  also have "\<dots> = min (zoom s + real (Suc n) / 4) 3"
    by (simp only: of_nat_Suc add.commute)
  finally show ?case .
qed

lemma zoomOut_funpow:
  "1 / 2 \<le> zoom s \<Longrightarrow> zoom ((zoomOut ^^ n) s) = max (zoom s - real n / 4) (1 / 2)"
proof (induction n)
  case 0
  then show ?case by simp
next
  case (Suc n)
  have "zoom ((zoomOut ^^ Suc n) s) = max (zoom ((zoomOut ^^ n) s) - 1 / 4) (1 / 2)"
    by (simp add: zoom_zoomOut)
  also have "\<dots> = max (max (zoom s - real n / 4) (1 / 2) - 1 / 4) (1 / 2)"
    using Suc by simp
  also have "\<dots> = max (zoom s - (real n + 1) / 4) (1 / 2)"
    by argo
  also have "\<dots> = max (zoom s - real (Suc n) / 4) (1 / 2)"
    by (simp only: of_nat_Suc add.commute)
  finally show ?case .
qed

text \<open>
  Claim C8. Starting from zoom 1.0, seven zoom-in commands give 2.75, the eighth
  gives 3.0, and every later one leaves the zoom at 3.0; zoom-in never yields
  more than 3.0 and zoom-out never less than 0.5, so from a zoom in \<open>[0.5, 3.0]\<close>
  any number of zoom commands stays in \<open>[0.5, 3.0]\<close>.
\<close>

theorem zoom_commands_clamped:
  "zoom ((zoomIn ^^ 7) (s\<lparr>zoom := 1.0\<rparr>)) = 2.75
   \<and> zoom ((zoomIn ^^ 8) (s\<lparr>zoom := 1.0\<rparr>)) = 3.0
   \<and> (\<forall>n. 8 \<le> n \<longrightarrow> zoom ((zoomIn ^^ n) (s\<lparr>zoom := 1.0\<rparr>)) = 3.0)
   \<and> zoom (zoomIn (s\<lparr>zoom := 3.0\<rparr>)) = 3.0
   \<and> zoom (zoomIn s) \<le> 3.0
   \<and> 0.5 \<le> zoom (zoomOut s)
   \<and> (0.5 \<le> zoom s \<and> zoom s \<le> 3.0 \<longrightarrow>
        0.5 \<le> zoom (zoomIn s) \<and> zoom (zoomOut s) \<le> 3.0
        \<and> (\<forall>n. 0.5 \<le> zoom ((zoomOut ^^ n) s) \<and> zoom ((zoomIn ^^ n) s) \<le> 3.0))"
proof -
  have a: "zoom ((zoomIn ^^ n) (s\<lparr>zoom := 1.0\<rparr>)) = min (1 + real n / 4) 3" for n
    using zoomIn_funpow [of "s\<lparr>zoom := 1.0\<rparr>" n] by simp
  have a7: "zoom ((zoomIn ^^ 7) (s\<lparr>zoom := 1.0\<rparr>)) = 2.75"
    unfolding a by simp
  have a8: "zoom ((zoomIn ^^ 8) (s\<lparr>zoom := 1.0\<rparr>)) = 3.0"
    unfolding a by simp
  have a9: "\<forall>n. 8 \<le> n \<longrightarrow> zoom ((zoomIn ^^ n) (s\<lparr>zoom := 1.0\<rparr>)) = 3.0"
    unfolding a by (auto simp add: min_def)
  have b: "zoom (zoomIn (s\<lparr>zoom := 3.0\<rparr>)) = 3.0"
    by (simp add: zoom_zoomIn)
  have c: "zoom (zoomIn s) \<le> 3.0" "0.5 \<le> zoom (zoomOut s)"
    by (simp_all add: zoom_zoomIn zoom_zoomOut)
  have d: "0.5 \<le> zoom s \<and> zoom s \<le> 3.0 \<longrightarrow>
        0.5 \<le> zoom (zoomIn s) \<and> zoom (zoomOut s) \<le> 3.0
        \<and> (\<forall>n. 0.5 \<le> zoom ((zoomOut ^^ n) s) \<and> zoom ((zoomIn ^^ n) s) \<le> 3.0)"
    by (auto simp add: zoom_zoomIn zoom_zoomOut zoomIn_funpow zoomOut_funpow)
  from a7 a8 a9 b c d show ?thesis by blast
qed

theorem zoom_commands_clamped_witness:
  "zoom ((zoomIn ^^ 7) (initialState\<lparr>zoom := 1.0\<rparr>)) = 2.75
   \<and> zoom ((zoomIn ^^ 8) (initialState\<lparr>zoom := 1.0\<rparr>)) = 3.0
   \<and> (8::nat) \<le> 11 \<and> zoom ((zoomIn ^^ 11) (initialState\<lparr>zoom := 1.0\<rparr>)) = 3.0
   \<and> 0.5 \<le> zoom initialState \<and> zoom initialState \<le> 3.0
   \<and> 0.5 \<le> zoom (zoomIn initialState) \<and> zoom (zoomOut initialState) \<le> 3.0
   \<and> 0.5 \<le> zoom ((zoomOut ^^ 5) initialState) \<and> zoom ((zoomIn ^^ 5) initialState) \<le> 3.0"
proof -
  note z = zoom_commands_clamped [of initialState]
  have h: "0.5 \<le> zoom initialState \<and> zoom initialState \<le> 3.0"
    by (simp add: initialState_def)
  have n: "(8::nat) \<le> 11" by simp
  from z have far: "\<forall>n. 8 \<le> n \<longrightarrow> zoom ((zoomIn ^^ n) (initialState\<lparr>zoom := 1.0\<rparr>)) = 3.0"
    by blast
  from far n have f11: "zoom ((zoomIn ^^ 11) (initialState\<lparr>zoom := 1.0\<rparr>)) = 3.0"
    by blast
  from z h have r: "0.5 \<le> zoom (zoomIn initialState) \<and> zoom (zoomOut initialState) \<le> 3.0
        \<and> (\<forall>n. 0.5 \<le> zoom ((zoomOut ^^ n) initialState) \<and> zoom ((zoomIn ^^ n) initialState) \<le> 3.0)"
    by blast
  from r have r5: "0.5 \<le> zoom ((zoomOut ^^ 5) initialState) \<and> zoom ((zoomIn ^^ 5) initialState) \<le> 3.0"
    by blast
  from z h n f11 r r5 show ?thesis by blast
qed

section \<open>Text opacity\<close>

lemma alpha_tuple: "alpha (r, g, b, a) = a"
  by (simp add: alpha_def)

lemma getContentStyles_alpha:
  "alpha (headingColor (getContentStyles th c)) = headingOpacity c"
  "alpha (bodyColor (getContentStyles th c)) = textOpacity c"
  "alpha (strongColor (getContentStyles th c)) = headingOpacity c"
  by (cases th; simp add: getContentStyles_def alpha_tuple)+

lemma getTextColor_alpha: "alpha (getTextColor th c) = min 1 (0.8 + (c - 1) * 0.2)"
  by (cases th) (simp_all add: getTextColor_def alpha_tuple)

text \<open>
  Claim C6. For every theme and every contrast in \<open>[0.5, 2.0]\<close>, the opacity of the
  heading, body and bold text of the Word viewer and of the text of the text viewer
  is the clamped affine function \<open>min 1 (base + (contrast - 1) * slope)\<close> (0.9/0.1
  for headings, 0.7/0.3 for body text, 0.8/0.2 in the text viewer), lies in
  \<open>[0, 1]\<close>, and does not decrease when the contrast grows within the range.
\<close>

theorem text_opacity_range_and_monotone:
  "0.5 \<le> c \<Longrightarrow> c \<le> c' \<Longrightarrow> c' \<le> 2.0 \<Longrightarrow>
     alpha (headingColor (getContentStyles th c)) = min 1 (0.9 + (c - 1) * 0.1)
   \<and> alpha (bodyColor (getContentStyles th c)) = min 1 (0.7 + (c - 1) * 0.3)
   \<and> alpha (getTextColor th c) = min 1 (0.8 + (c - 1) * 0.2)
   \<and> 0 \<le> alpha (headingColor (getContentStyles th c)) \<and> alpha (headingColor (getContentStyles th c)) \<le> 1
   \<and> 0 \<le> alpha (bodyColor (getContentStyles th c)) \<and> alpha (bodyColor (getContentStyles th c)) \<le> 1
   \<and> 0 \<le> alpha (strongColor (getContentStyles th c)) \<and> alpha (strongColor (getContentStyles th c)) \<le> 1
   \<and> 0 \<le> alpha (getTextColor th c) \<and> alpha (getTextColor th c) \<le> 1
   \<and> alpha (headingColor (getContentStyles th c)) \<le> alpha (headingColor (getContentStyles th c'))
   \<and> alpha (bodyColor (getContentStyles th c)) \<le> alpha (bodyColor (getContentStyles th c'))
   \<and> alpha (strongColor (getContentStyles th c)) \<le> alpha (strongColor (getContentStyles th c'))
   \<and> alpha (getTextColor th c) \<le> alpha (getTextColor th c')"
  unfolding getContentStyles_alpha getTextColor_alpha textOpacity_def headingOpacity_def
  by argo

theorem text_opacity_range_and_monotone_witness:
  "(0.5::real) \<le> 1 \<and> (1::real) \<le> 1.5 \<and> (1.5::real) \<le> 2.0
   \<and> alpha (bodyColor (getContentStyles Sepia 1)) = 0.7
   \<and> alpha (bodyColor (getContentStyles Sepia 1.5)) = 0.85
   \<and> alpha (bodyColor (getContentStyles Sepia 1)) \<le> alpha (bodyColor (getContentStyles Sepia 1.5))
   \<and> alpha (headingColor (getContentStyles Sepia 1)) \<le> alpha (headingColor (getContentStyles Sepia 1.5))
   \<and> alpha (getTextColor Sepia 1) \<le> alpha (getTextColor Sepia 1.5)
   \<and> alpha (getTextColor Sepia 1) \<le> 1"
  using text_opacity_range_and_monotone [of 1 "1.5" Sepia]
  by (simp add: getContentStyles_alpha textOpacity_def)

text \<open>
  Claim C10. In the Word viewer, for every contrast in \<open>[0.5, 2.0]\<close> the heading
  opacity \<open>min 1 (0.9 + (contrast - 1) * 0.1)\<close> is at least the body-text opacity
  \<open>min 1 (0.7 + (contrast - 1) * 0.3)\<close>, in every theme.
\<close>

theorem heading_opacity_ge_body:
  "0.5 \<le> c \<Longrightarrow> c \<le> 2.0 \<Longrightarrow>
     headingOpacity c = min 1 (0.9 + (c - 1) * 0.1)
     \<and> textOpacity c = min 1 (0.7 + (c - 1) * 0.3)
     \<and> textOpacity c \<le> headingOpacity c
     \<and> alpha (bodyColor (getContentStyles th c)) \<le> alpha (headingColor (getContentStyles th c))"
  unfolding getContentStyles_alpha textOpacity_def headingOpacity_def by argo

theorem heading_opacity_ge_body_witness:
  "(0.5::real) \<le> 2.0 \<and> (2.0::real) \<le> 2.0
   \<and> textOpacity 2.0 = 1 \<and> headingOpacity 2.0 = 1
   \<and> textOpacity 2.0 \<le> headingOpacity 2.0
   \<and> alpha (bodyColor (getContentStyles Dark 2.0)) \<le> alpha (headingColor (getContentStyles Dark 2.0))"
  using heading_opacity_ge_body [of "2.0" Dark]
  by (simp add: textOpacity_def headingOpacity_def)

section \<open>Sepia transform\<close>

subsection \<open>Rounding\<close>

lemma roundHalfEven_cases:
  "roundHalfEven x = \<lfloor>x\<rfloor> \<and> x \<le> of_int \<lfloor>x\<rfloor> + 1 / 2
   \<or> roundHalfEven x = \<lfloor>x\<rfloor> + 1 \<and> of_int \<lfloor>x\<rfloor> + 1 / 2 \<le> x"
  by (auto simp add: roundHalfEven_def Let_def)

lemma roundHalfEven_err: "\<bar>of_int (roundHalfEven x) - x\<bar> \<le> 1 / 2"
proof -
  have "of_int \<lfloor>x\<rfloor> \<le> x" "x < of_int \<lfloor>x\<rfloor> + 1" by linarith+
  with roundHalfEven_cases [of x] show ?thesis by auto
qed

lemma roundHalfEven_nonneg: "0 \<le> x \<Longrightarrow> 0 \<le> roundHalfEven x"
proof -
  assume "0 \<le> x"
  then have "0 \<le> \<lfloor>x\<rfloor>" by simp
  with roundHalfEven_cases [of x] show ?thesis by auto
qed

lemma round64_nonneg: "0 \<le> x \<Longrightarrow> 0 \<le> round64 x"
proof -
  assume x: "0 \<le> x"
  define y where "y = \<bar>x\<bar> * 2 ^ 1074"
  define k where "k = floorlog 2 (nat \<lfloor>y\<rfloor>) - 53"
  have "0 \<le> y / 2 ^ k" unfolding y_def by simp
  then have "0 \<le> roundHalfEven (y / 2 ^ k)" by (rule roundHalfEven_nonneg)
  then have q: "0 \<le> (of_int (roundHalfEven (y / 2 ^ k)) :: real) * 2 ^ k / 2 ^ 1074" by simp
  have "0 \<le> sgn x" using x by (simp add: sgn_if)
  from this q have "0 \<le> sgn x * (of_int (roundHalfEven (y / 2 ^ k)) * 2 ^ k / 2 ^ 1074)"
    by (rule mult_nonneg_nonneg)
  then show ?thesis unfolding round64_def Let_def y_def k_def .
qed

text \<open>Half the spacing of the doubles around \<open>y\<close> (in units of \<open>2^-1074\<close>) is at most
  \<open>y / 2^53\<close>, or one half in the subnormal range.\<close>

lemma round64_ulp_bound:
  fixes y :: real
  assumes "0 \<le> y"
  shows "2 ^ (floorlog 2 (nat \<lfloor>y\<rfloor>) - 53) / 2 \<le> y / 2 ^ 53 + 1 / 2"
proof (cases "floorlog 2 (nat \<lfloor>y\<rfloor>) \<le> 53")
  case True
  then have "floorlog 2 (nat \<lfloor>y\<rfloor>) - 53 = 0" by simp
  then show ?thesis using assms by simp
next
  case False
  define n where "n = nat \<lfloor>y\<rfloor>"
  define b where "b = floorlog 2 n"
  from False have b: "53 < b" unfolding b_def n_def by simp
  then have "n > 0" unfolding b_def using floorlog_eq_zero_iff [of 2 n] by auto
  then have "2 ^ (b - 1) \<le> n" unfolding b_def using floorlog_bounds [of n 2] by simp
  then have "(2::real) ^ (b - 1) \<le> real n" by (metis of_nat_le_iff of_nat_numeral of_nat_power)
  also have "real n \<le> y" unfolding n_def using assms by simp
  finally have le: "(2::real) ^ (b - 1) \<le> y" .
  have "b - 1 = (b - 53) + 52" using b by simp
  then have "(2::real) ^ (b - 1) = 2 ^ (b - 53) * 2 ^ 52" by (simp only: power_add)
  with le have "(2::real) ^ (b - 53) * 2 ^ 52 \<le> y" by simp
  then have "(2::real) ^ (b - 53) \<le> y / 2 ^ 52" by (simp add: le_divide_eq)
  then have "(2::real) ^ (b - 53) / 2 \<le> y / 2 ^ 53" by simp
  then show ?thesis unfolding b_def n_def by linarith
qed

text \<open>The relative error of a rounding is at most \<open>2^-53\<close>, up to the subnormal
  absolute error.\<close>

lemma round64_err: "\<bar>round64 x - x\<bar> \<le> \<bar>x\<bar> / 2 ^ 53 + 1 / 2 ^ 1075"
proof -
  define S :: real where "S = 2 ^ 1074"
  have S: "0 < S" unfolding S_def by simp
  define y where "y = \<bar>x\<bar> * S"
  define k where "k = floorlog 2 (nat \<lfloor>y\<rfloor>) - 53"
  define q where "q = (of_int (roundHalfEven (y / 2 ^ k)) :: real)"
  have y: "0 \<le> y" unfolding y_def using S by simp
  have r: "round64 x = sgn x * (q * 2 ^ k / S)"
    unfolding round64_def Let_def q_def k_def y_def S_def ..
  have x: "x = sgn x * (y / S)" unfolding y_def using S by (simp add: sgn_if)
  have "\<bar>q - y / 2 ^ k\<bar> \<le> 1 / 2" unfolding q_def by (rule roundHalfEven_err)
  then have "\<bar>q - y / 2 ^ k\<bar> * 2 ^ k \<le> 1 / 2 * 2 ^ k" by (intro mult_right_mono) simp_all
  moreover have "\<bar>q - y / 2 ^ k\<bar> * 2 ^ k = \<bar>q * 2 ^ k - y\<bar>"
  proof -
    have "\<bar>q - y / 2 ^ k\<bar> * 2 ^ k = \<bar>(q - y / 2 ^ k) * 2 ^ k\<bar>" by (simp add: abs_mult)
    also have "(q - y / 2 ^ k) * 2 ^ k = q * 2 ^ k - y" by (simp add: algebra_simps)
    finally show ?thesis .
  qed
  ultimately have "\<bar>q * 2 ^ k - y\<bar> \<le> 2 ^ k / 2" by simp
  also have "\<dots> \<le> y / 2 ^ 53 + 1 / 2" unfolding k_def using y by (rule round64_ulp_bound)
  finally have e: "\<bar>q * 2 ^ k - y\<bar> \<le> y / 2 ^ 53 + 1 / 2" .
  have "round64 x - x = sgn x * ((q * 2 ^ k - y) / S)"
    by (subst r, subst (2) x) (simp add: algebra_simps diff_divide_distrib)
  then have "\<bar>round64 x - x\<bar> = \<bar>sgn x\<bar> * (\<bar>q * 2 ^ k - y\<bar> / S)"
    using S by (simp add: abs_mult)
  also have "\<dots> \<le> 1 * (\<bar>q * 2 ^ k - y\<bar> / S)"
    using S by (intro mult_right_mono) (simp_all add: sgn_if)
  also have "\<dots> \<le> (y / 2 ^ 53 + 1 / 2) / S"
    using e S by (simp add: divide_right_mono)
  also have "\<dots> = \<bar>x\<bar> / 2 ^ 53 + 1 / (2 * S)"
    unfolding y_def using S by (simp add: add_divide_distrib)
  also have "2 * S = 2 ^ 1075" unfolding S_def by simp
  finally show ?thesis .
qed

lemma round64_err_1024: "\<bar>x\<bar> \<le> 1024 \<Longrightarrow> \<bar>round64 x - x\<bar> \<le> 1 / 2 ^ 42"
proof -
  assume a: "\<bar>x\<bar> \<le> 1024"
  have "\<bar>x\<bar> / 2 ^ 53 \<le> 1024 / 2 ^ 53" using a by (simp add: divide_right_mono)
  also have "(1024::real) / 2 ^ 53 = 1 / 2 ^ 43" by simp
  finally have 1: "\<bar>x\<bar> / 2 ^ 53 \<le> 1 / 2 ^ 43" .
  have "(2::real) ^ 43 \<le> 2 ^ 1075" by (rule power_increasing) simp_all
  then have 2: "1 / (2::real) ^ 1075 \<le> 1 / 2 ^ 43" by (simp add: frac_le)
  have 3: "(1::real) / 2 ^ 43 + 1 / 2 ^ 43 = 1 / 2 ^ 42" by simp
  from round64_err [of x] 1 2 3 show ?thesis by linarith
qed



subsection \<open>Evaluating roundings\<close>

text \<open>When the binade of the argument is known, \<open>round64\<close> rounds to a fixed
  multiple of a power of two.\<close>

lemma floorlog2_eqI: "0 < b \<Longrightarrow> 2 ^ (b - 1) \<le> n \<Longrightarrow> n < 2 ^ b \<Longrightarrow> floorlog 2 n = b"
proof -
  assume b: "0 < b" and l: "2 ^ (b - 1) \<le> n" and u: "n < 2 ^ b"
  from u have "floorlog 2 n \<le> b" by (intro floorlog_leI) simp_all
  moreover from l have "b \<le> floorlog 2 n" by (intro floorlog_geI) simp_all
  ultimately show ?thesis by simp
qed

lemma round64_eval:
  assumes l: "(2::real) ^ (b - 1) \<le> x * 2 ^ 1074" and u: "x * 2 ^ 1074 < 2 ^ b" and b: "53 \<le> b"
  shows "round64 x = of_int (roundHalfEven (x * 2 ^ 1074 / 2 ^ (b - 53))) * 2 ^ (b - 53) / 2 ^ 1074"
proof -
  define S :: real where "S = 2 ^ 1074"
  have S: "0 < S" unfolding S_def by simp
  have "0 < (2::real) ^ (b - 1)" by simp
  with l have "0 < x * S" unfolding S_def by linarith
  with S have x: "0 < x" by (simp add: zero_less_mult_iff)
  define n where "n = nat \<lfloor>x * S\<rfloor>"
  have "(2::real) ^ (b - 1) = of_int (2 ^ (b - 1))" by simp
  with l have "2 ^ (b - 1) \<le> \<lfloor>x * S\<rfloor>" unfolding S_def by (simp only: le_floor_iff)
  then have ln: "2 ^ (b - 1) \<le> n" unfolding n_def by (simp add: le_nat_iff)
  have "(2::real) ^ b = of_int (2 ^ b)" by simp
  with u have "\<lfloor>x * S\<rfloor> < 2 ^ b" unfolding S_def by (simp only: floor_less_iff)
  then have un: "n < 2 ^ b" unfolding n_def by (simp add: nat_less_iff)
  from b ln un have "floorlog 2 n = b" by (intro floorlog2_eqI) simp_all
  then have k: "floorlog 2 (nat \<lfloor>\<bar>x\<bar> * 2 ^ 1074\<rfloor>) = b" unfolding n_def S_def using x by simp
  show ?thesis unfolding round64_def Let_def k using x by simp
qed

lemma round64_ge1:
  assumes "2 ^ m \<le> x" "x < 2 * 2 ^ m" "m \<le> 52"
  shows "round64 x = roundTo (52 - m) x"
proof -
  have e1: "(2::real) ^ (1074 + m) = 2 ^ m * 2 ^ 1074" by (simp only: power_add mult.commute)
  have l: "(2::real) ^ (1075 + m - 1) \<le> x * 2 ^ 1074"
    using assms(1) by (simp add: e1)
  have e2: "(2::real) ^ (1075 + m) = 2 * 2 ^ m * 2 ^ 1074" by (simp add: power_add)
  have u: "x * 2 ^ 1074 < (2::real) ^ (1075 + m)"
    unfolding e2 using assms(2) by simp
  have e3: "(2::real) ^ 1074 = 2 ^ (52 - m) * 2 ^ (1022 + m)"
    using assms(3) by (simp only: power_add [symmetric]) simp
  have k: "1075 + m - 53 = 1022 + m" by simp
  have "round64 x = of_int (roundHalfEven (x * 2 ^ 1074 / 2 ^ (1022 + m))) * 2 ^ (1022 + m) / 2 ^ 1074"
    using round64_eval [OF l u] by (simp only: k)
  also have "x * 2 ^ 1074 / 2 ^ (1022 + m) = x * 2 ^ (52 - m)"
    by (subst e3) simp
  also have "of_int (roundHalfEven (x * 2 ^ (52 - m))) * 2 ^ (1022 + m) / 2 ^ 1074
      = of_int (roundHalfEven (x * 2 ^ (52 - m))) / (2::real) ^ (52 - m)"
    by (subst e3) simp
  finally show ?thesis unfolding roundTo_def .
qed

lemma round64_lt1:
  assumes "1 \<le> x * 2 ^ m" "x * 2 ^ m < 2" "m \<le> 1022"
  shows "round64 x = roundTo (52 + m) x"
proof -
  have e1: "(2::real) ^ 1074 = 2 ^ m * 2 ^ (1074 - m)"
    using assms(3) by (simp only: power_add [symmetric]) simp
  have "1 * (2::real) ^ (1074 - m) \<le> x * 2 ^ m * 2 ^ (1074 - m)"
    using assms(1) by (intro mult_right_mono) simp_all
  then have l: "(2::real) ^ (1075 - m - 1) \<le> x * 2 ^ 1074"
    by (subst e1) (simp add: mult.assoc)
  have "x * 2 ^ m * 2 ^ (1074 - m) < 2 * (2::real) ^ (1074 - m)"
    using assms(2) by (intro mult_strict_right_mono) simp_all
  moreover have "2 * (2::real) ^ (1074 - m) = 2 ^ (1075 - m)"
    using assms(3) by (simp add: Suc_diff_le flip: power_Suc)
  ultimately have u: "x * 2 ^ 1074 < (2::real) ^ (1075 - m)"
    by (subst e1) (simp add: mult.assoc)
  have b: "53 \<le> 1075 - m" using assms(3) by simp
  have k: "1075 - m - 53 = 1022 - m" by simp
  have e3: "(2::real) ^ 1074 = 2 ^ (52 + m) * 2 ^ (1022 - m)"
    using assms(3) by (simp only: power_add [symmetric]) simp
  have "round64 x = of_int (roundHalfEven (x * 2 ^ 1074 / 2 ^ (1022 - m))) * 2 ^ (1022 - m) / 2 ^ 1074"
    using round64_eval [OF l u b] by (simp only: k)
  also have "x * 2 ^ 1074 / 2 ^ (1022 - m) = x * 2 ^ (52 + m)"
    by (subst e3) simp
  also have "of_int (roundHalfEven (x * 2 ^ (52 + m))) * 2 ^ (1022 - m) / 2 ^ 1074
      = of_int (roundHalfEven (x * 2 ^ (52 + m))) / (2::real) ^ (52 + m)"
    by (subst e3) simp
  finally show ?thesis unfolding roundTo_def .
qed

lemma round64_zero: "round64 0 = 0"
  by (simp add: round64_def)

text \<open>All numbers of the sepia transform other than 0 lie between \<open>1/16\<close> and 512.\<close>

lemma round64_cascade:
  assumes "1 / 16 \<le> x" "x < 512"
  shows "round64 x =
     (if x < 1 / 8 then roundTo 56 x
      else if x < 1 / 4 then roundTo 55 x
      else if x < 1 / 2 then roundTo 54 x
      else if x < 1 then roundTo 53 x
      else if x < 2 then roundTo 52 x
      else if x < 4 then roundTo 51 x
      else if x < 8 then roundTo 50 x
      else if x < 16 then roundTo 49 x
      else if x < 32 then roundTo 48 x
      else if x < 64 then roundTo 47 x
      else if x < 128 then roundTo 46 x
      else if x < 256 then roundTo 45 x
      else roundTo 44 x)"
  using assms round64_lt1 [of x 4] round64_lt1 [of x 3] round64_lt1 [of x 2] round64_lt1 [of x 1]
    round64_ge1 [of 0 x] round64_ge1 [of 1 x] round64_ge1 [of 2 x] round64_ge1 [of 3 x]
    round64_ge1 [of 4 x] round64_ge1 [of 5 x] round64_ge1 [of 6 x] round64_ge1 [of 7 x]
    round64_ge1 [of 8 x]
  by (auto simp add: not_less)

lemmas round64_eval_simps = round64_cascade roundTo_def roundHalfEven_def Let_def mul64_def add64_def

text \<open>The coefficient \<^verbatim>\<open>0.393\<close> as a double.\<close>

lemma round64_0393: "round64 0.393 = 1769914653556605 / 2 ^ 52"
  by (simp add: round64_eval_simps)

text \<open>The upper clamp is reached: white stays white in red and green, while the
  blue row of the matrix sums to 0.937.\<close>

lemma sepiaLoop_white: "sepiaLoop [255, 255, 255, 255] = [255, 255, 239, 255]"
  by (simp add: sepiaR_def sepiaG_def sepiaB_def toUint8Clamp_def round64_eval_simps)



subsection \<open>Range and accuracy of a channel\<close>

lemma mul64_nonneg: "0 \<le> x \<Longrightarrow> 0 \<le> y \<Longrightarrow> 0 \<le> mul64 x y"
  unfolding mul64_def by (intro round64_nonneg mult_nonneg_nonneg)

lemma add64_nonneg: "0 \<le> x \<Longrightarrow> 0 \<le> y \<Longrightarrow> 0 \<le> add64 x y"
  unfolding add64_def by (intro round64_nonneg add_nonneg_nonneg)

lemma row_nonneg:
  "0 \<le> c1 \<Longrightarrow> 0 \<le> c2 \<Longrightarrow> 0 \<le> c3 \<Longrightarrow>
   0 \<le> add64 (add64 (mul64 (real r) (round64 c1)) (mul64 (real g) (round64 c2)))
               (mul64 (real b) (round64 c3))"
  by (intro add64_nonneg mul64_nonneg round64_nonneg) simp_all

lemma sepia_channel_range:
  "0 \<le> sepiaR r g b \<and> sepiaR r g b \<le> 255"
  "0 \<le> sepiaG r g b \<and> sepiaG r g b \<le> 255"
  "0 \<le> sepiaB r g b \<and> sepiaB r g b \<le> 255"
  unfolding sepiaR_def sepiaG_def sepiaB_def
  using row_nonneg [of "0.393" "0.769" "0.189" r g b]
    row_nonneg [of "0.349" "0.686" "0.168" r g b]
    row_nonneg [of "0.272" "0.534" "0.131" r g b]
  by simp_all

text \<open>A byte times a rounded coefficient, rounded, is within \<open>256 * 2^-42\<close> of the
  exact product.\<close>

lemma mul64_err:
  assumes c: "0 \<le> c" "c \<le> 1" and n: "n \<le> (255::nat)"
  shows "\<bar>mul64 (real n) (round64 c) - real n * c\<bar> \<le> 256 / 2 ^ 42"
proof -
  define c' where "c' = round64 c"
  have e: "\<bar>c' - c\<bar> \<le> 1 / 2 ^ 42"
    unfolding c'_def using c by (intro round64_err_1024) simp
  have rn: "0 \<le> real n" "real n \<le> 255" using n by simp_all
  have "\<bar>real n * c' - real n * c\<bar> = real n * \<bar>c' - c\<bar>"
    by (simp add: abs_mult flip: right_diff_distrib)
  also have "\<dots> \<le> 255 * (1 / 2 ^ 42)"
    using rn e by (intro mult_mono) simp_all
  finally have d: "\<bar>real n * c' - real n * c\<bar> \<le> 255 / 2 ^ 42" by simp
  have "real n * c \<le> 255 * 1" using rn c by (intro mult_mono) simp_all
  moreover have "0 \<le> real n * c" using rn c by simp
  ultimately have "\<bar>real n * c'\<bar> \<le> 255 + 255 / 2 ^ 42" using d by linarith
  also have "\<dots> \<le> (1024::real)" by simp
  finally have "\<bar>round64 (real n * c') - real n * c'\<bar> \<le> 1 / 2 ^ 42"
    by (rule round64_err_1024)
  with d have "\<bar>round64 (real n * c') - real n * c\<bar> \<le> 255 / 2 ^ 42 + 1 / 2 ^ 42" by linarith
  then show ?thesis unfolding mul64_def c'_def by simp
qed

lemma add64_err:
  assumes "\<bar>p - P\<bar> \<le> e1" "\<bar>q - Q\<bar> \<le> e2" "\<bar>P + Q\<bar> + e1 + e2 \<le> 1024"
  shows "\<bar>add64 p q - (P + Q)\<bar> \<le> e1 + e2 + 1 / 2 ^ 42"
proof -
  have "\<bar>p + q\<bar> \<le> 1024" using assms by linarith
  then have "\<bar>round64 (p + q) - (p + q)\<bar> \<le> 1 / 2 ^ 42" by (rule round64_err_1024)
  with assms(1,2) show ?thesis unfolding add64_def by linarith
qed

lemma sepia_row_err:
  assumes c: "0 \<le> c1" "c1 \<le> 1" "0 \<le> c2" "c2 \<le> 1" "0 \<le> c3" "c3 \<le> 1"
    and n: "r \<le> (255::nat)" "g \<le> (255::nat)" "b \<le> (255::nat)"
  shows "\<bar>add64 (add64 (mul64 (real r) (round64 c1)) (mul64 (real g) (round64 c2)))
               (mul64 (real b) (round64 c3))
          - (real r * c1 + real g * c2 + real b * c3)\<bar> \<le> 770 / 2 ^ 42"
proof -
  define p1 where "p1 = mul64 (real r) (round64 c1)"
  define p2 where "p2 = mul64 (real g) (round64 c2)"
  define p3 where "p3 = mul64 (real b) (round64 c3)"
  define P1 where "P1 = real r * c1"
  define P2 where "P2 = real g * c2"
  define P3 where "P3 = real b * c3"
  have e1: "\<bar>p1 - P1\<bar> \<le> 256 / 2 ^ 42" unfolding p1_def P1_def using c n by (intro mul64_err)
  have e2: "\<bar>p2 - P2\<bar> \<le> 256 / 2 ^ 42" unfolding p2_def P2_def using c n by (intro mul64_err)
  have e3: "\<bar>p3 - P3\<bar> \<le> 256 / 2 ^ 42" unfolding p3_def P3_def using c n by (intro mul64_err)
  have b1: "0 \<le> P1" "P1 \<le> 255 * 1"
    unfolding P1_def using c n by (simp, intro mult_mono, simp_all)
  have b2: "0 \<le> P2" "P2 \<le> 255 * 1"
    unfolding P2_def using c n by (simp, intro mult_mono, simp_all)
  have b3: "0 \<le> P3" "P3 \<le> 255 * 1"
    unfolding P3_def using c n by (simp, intro mult_mono, simp_all)
  have small: "(256::real) / 2 ^ 42 \<le> 1" "(1::real) / 2 ^ 42 \<le> 1" by simp_all
  have s1: "\<bar>add64 p1 p2 - (P1 + P2)\<bar> \<le> 256 / 2 ^ 42 + 256 / 2 ^ 42 + 1 / 2 ^ 42"
    using b1 b2 small by (intro add64_err [OF e1 e2]) linarith
  have s2: "\<bar>add64 (add64 p1 p2) p3 - ((P1 + P2) + P3)\<bar>
      \<le> (256 / 2 ^ 42 + 256 / 2 ^ 42 + 1 / 2 ^ 42) + 256 / 2 ^ 42 + 1 / 2 ^ 42"
    using b1 b2 b3 small by (intro add64_err [OF s1 e3]) linarith
  have "(256 / 2 ^ 42 + 256 / 2 ^ 42 + 1 / 2 ^ 42) + 256 / 2 ^ 42 + 1 / 2 ^ 42 = (770::real) / 2 ^ 42"
    by simp
  with s2 show ?thesis unfolding p1_def p2_def p3_def P1_def P2_def P3_def by simp
qed



lemma clamp255_nonneg: "0 \<le> x \<Longrightarrow> clamp255 x = min 255 x"
  unfolding clamp255_def by argo

lemma rounding_budget: "(770::real) / 2 ^ 42 \<le> 1 / 10 ^ 9"
  by simp

lemma clamp255_close:
  fixes a x e d :: real
  shows "\<bar>a - x\<bar> \<le> e \<Longrightarrow> e \<le> d \<Longrightarrow> 0 \<le> x \<Longrightarrow> \<bar>min 255 a - clamp255 x\<bar> \<le> d"
  unfolding clamp255_def by argo

lemma sepia_channel_err:
  assumes c: "0 \<le> c1" "c1 \<le> 1" "0 \<le> c2" "c2 \<le> 1" "0 \<le> c3" "c3 \<le> 1"
    and n: "r \<le> (255::nat)" "g \<le> (255::nat)" "b \<le> (255::nat)"
  shows "\<bar>min 255 (add64 (add64 (mul64 (real r) (round64 c1)) (mul64 (real g) (round64 c2)))
                     (mul64 (real b) (round64 c3)))
          - clamp255 (c1 * real r + c2 * real g + c3 * real b)\<bar> \<le> 1 / 10 ^ 9"
proof -
  have eq: "c1 * real r + c2 * real g + c3 * real b = real r * c1 + real g * c2 + real b * c3"
    by (simp add: mult.commute)
  have nonneg: "0 \<le> real r * c1 + real g * c2 + real b * c3"
    using c by simp
  show ?thesis
    unfolding eq by (rule clamp255_close [OF sepia_row_err [OF c n] rounding_budget nonneg])
qed

lemma sepiaR_err:
  assumes "r \<le> 255" "g \<le> 255" "b \<le> 255"
  shows "\<bar>sepiaR r g b - clamp255 (0.393 * real r + 0.769 * real g + 0.189 * real b)\<bar> \<le> 1 / 10 ^ 9"
  unfolding sepiaR_def using assms by (intro sepia_channel_err) simp_all

lemma sepiaG_err:
  assumes "r \<le> 255" "g \<le> 255" "b \<le> 255"
  shows "\<bar>sepiaG r g b - clamp255 (0.349 * real r + 0.686 * real g + 0.168 * real b)\<bar> \<le> 1 / 10 ^ 9"
  unfolding sepiaG_def using assms by (intro sepia_channel_err) simp_all

lemma sepiaB_err:
  assumes "r \<le> 255" "g \<le> 255" "b \<le> 255"
  shows "\<bar>sepiaB r g b - clamp255 (0.272 * real r + 0.534 * real g + 0.131 * real b)\<bar> \<le> 1 / 10 ^ 9"
  unfolding sepiaB_def using assms by (intro sepia_channel_err) simp_all

subsection \<open>The stored byte\<close>

lemma roundHalfEven_le_255:
  assumes "v \<le> 255"
  shows "roundHalfEven v \<le> 255"
proof -
  define f where "f = \<lfloor>v\<rfloor>"
  have lo: "real_of_int f \<le> v" unfolding f_def by simp
  from roundHalfEven_cases [of v]
  have "roundHalfEven v = f \<or> roundHalfEven v = f + 1 \<and> real_of_int f + 1 / 2 \<le> v"
    unfolding f_def by blast
  then show ?thesis
  proof (elim disjE conjE)
    assume r: "roundHalfEven v = f"
    from lo assms have "real_of_int f \<le> 255" by linarith
    then have "f \<le> 255" by simp
    with r show ?thesis by simp
  next
    assume r: "roundHalfEven v = f + 1" and h: "real_of_int f + 1 / 2 \<le> v"
    from h assms have "real_of_int f < 255" by linarith
    then have "f < 255" by simp
    with r show ?thesis by simp
  qed
qed

lemma toUint8Clamp_le: "toUint8Clamp x \<le> 255"
proof -
  have "roundHalfEven (max 0 (min 255 x)) \<le> 255"
    by (rule roundHalfEven_le_255) simp
  then show ?thesis unfolding toUint8Clamp_def by simp
qed

lemma toUint8Clamp_near:
  assumes "0 \<le> v" "v \<le> 255"
  shows "\<bar>real (toUint8Clamp v) - v\<bar> \<le> 1 / 2"
proof -
  have m: "max 0 (min 255 v) = v" using assms by simp
  have "0 \<le> roundHalfEven v" using assms(1) by (rule roundHalfEven_nonneg)
  then have "real (toUint8Clamp v) = of_int (roundHalfEven v)"
    unfolding toUint8Clamp_def m by simp
  with roundHalfEven_err [of v] show ?thesis by simp
qed

text \<open>A value within 10^-9 of a number of matrix_rows_thousandths rounds to one of the integers
  nearest to that number.\<close>

lemma stored_byte_nearest:
  fixes K :: nat
  assumes c: "\<bar>v - clamp255 (real K / 1000)\<bar> \<le> 1 / 10 ^ 9" and v: "0 \<le> v" "v \<le> 255"
  shows "\<bar>real (toUint8Clamp v) - clamp255 (real K / 1000)\<bar> \<le> 1 / 2"
proof -
  define n where "n = toUint8Clamp v"
  define W where "W = min 255000 K"
  have w: "clamp255 (real K / 1000) = real W / 1000"
    unfolding W_def by (subst clamp255_nonneg) (simp_all add: min_def)
  have "\<bar>real n - v\<bar> \<le> 1 / 2" unfolding n_def using v by (rule toUint8Clamp_near)
  with c have "\<bar>real n - real W / 1000\<bar> \<le> 1 / 2 + 1 / 10 ^ 9" unfolding w by linarith
  then have "\<bar>1000 * real n - real W\<bar> \<le> 500 + 1 / 10 ^ 6" by (simp add: abs_if split: if_splits)
  then have "\<bar>real_of_int (1000 * int n - int W)\<bar> < 501" by simp
  then have "\<bar>1000 * int n - int W\<bar> < 501" by linarith
  then have "\<bar>1000 * int n - int W\<bar> \<le> 500" by simp
  then have "\<bar>real_of_int (1000 * int n - int W)\<bar> \<le> 500" by linarith
  then have "\<bar>1000 * real n - real W\<bar> \<le> 500" by simp
  then have "\<bar>real n - real W / 1000\<bar> \<le> 1 / 2" by (simp add: abs_if split: if_splits)
  then show ?thesis unfolding w n_def .
qed

lemma matrix_rows_thousandths:
  "0.393 * real r + 0.769 * real g + 0.189 * real b = real (393 * r + 769 * g + 189 * b) / 1000"
  "0.349 * real r + 0.686 * real g + 0.168 * real b = real (349 * r + 686 * g + 168 * b) / 1000"
  "0.272 * real r + 0.534 * real g + 0.131 * real b = real (272 * r + 534 * g + 131 * b) / 1000"
  by simp_all

lemma stored_channels_nearest:
  assumes "r \<le> 255" "g \<le> 255" "b \<le> 255"
  shows "\<bar>real (toUint8Clamp (sepiaR r g b)) - clamp255 (0.393 * real r + 0.769 * real g + 0.189 * real b)\<bar> \<le> 1 / 2"
    and "\<bar>real (toUint8Clamp (sepiaG r g b)) - clamp255 (0.349 * real r + 0.686 * real g + 0.168 * real b)\<bar> \<le> 1 / 2"
    and "\<bar>real (toUint8Clamp (sepiaB r g b)) - clamp255 (0.272 * real r + 0.534 * real g + 0.131 * real b)\<bar> \<le> 1 / 2"
proof -
  have R: "\<bar>sepiaR r g b - clamp255 (real (393 * r + 769 * g + 189 * b) / 1000)\<bar> \<le> 1 / 10 ^ 9"
    using sepiaR_err [OF assms] by (simp only: matrix_rows_thousandths)
  have G: "\<bar>sepiaG r g b - clamp255 (real (349 * r + 686 * g + 168 * b) / 1000)\<bar> \<le> 1 / 10 ^ 9"
    using sepiaG_err [OF assms] by (simp only: matrix_rows_thousandths)
  have B: "\<bar>sepiaB r g b - clamp255 (real (272 * r + 534 * g + 131 * b) / 1000)\<bar> \<le> 1 / 10 ^ 9"
    using sepiaB_err [OF assms] by (simp only: matrix_rows_thousandths)
  note rng = sepia_channel_range [of r g b]
  show "\<bar>real (toUint8Clamp (sepiaR r g b)) - clamp255 (0.393 * real r + 0.769 * real g + 0.189 * real b)\<bar> \<le> 1 / 2"
    unfolding matrix_rows_thousandths using rng(1) by (intro stored_byte_nearest [OF R]) blast+
  show "\<bar>real (toUint8Clamp (sepiaG r g b)) - clamp255 (0.349 * real r + 0.686 * real g + 0.168 * real b)\<bar> \<le> 1 / 2"
    unfolding matrix_rows_thousandths using rng(2) by (intro stored_byte_nearest [OF G]) blast+
  show "\<bar>real (toUint8Clamp (sepiaB r g b)) - clamp255 (0.272 * real r + 0.534 * real g + 0.131 * real b)\<bar> \<le> 1 / 2"
    unfolding matrix_rows_thousandths using rng(3) by (intro stored_byte_nearest [OF B]) blast+
qed



subsection \<open>The loop\<close>

lemma sepiaLoop_length: "length (sepiaLoop data) = length data"
  by (induction data rule: sepiaLoop.induct) simp_all

lemma sepiaLoop_bytes:
  "\<forall>x\<in>set data. x \<le> 255 \<Longrightarrow> \<forall>y\<in>set (sepiaLoop data). y \<le> 255"
  by (induction data rule: sepiaLoop.induct) (simp_all add: toUint8Clamp_le)

lemma sepiaLoop_nth:
  "length data mod 4 = 0 \<Longrightarrow> i < length data div 4 \<Longrightarrow>
     sepiaLoop data ! (4 * i)
       = toUint8Clamp (sepiaR (data ! (4 * i)) (data ! (4 * i + 1)) (data ! (4 * i + 2)))
     \<and> sepiaLoop data ! (4 * i + 1)
       = toUint8Clamp (sepiaG (data ! (4 * i)) (data ! (4 * i + 1)) (data ! (4 * i + 2)))
     \<and> sepiaLoop data ! (4 * i + 2)
       = toUint8Clamp (sepiaB (data ! (4 * i)) (data ! (4 * i + 1)) (data ! (4 * i + 2)))
     \<and> sepiaLoop data ! (4 * i + 3) = data ! (4 * i + 3)"
proof (induction data arbitrary: i rule: sepiaLoop.induct)
  case (1 r g b a rest)
  show ?case
  proof (cases i)
    case 0
    then show ?thesis by simp
  next
    case (Suc j)
    from "1.prems" have len: "length rest mod 4 = 0" by simp
    from "1.prems" Suc have j: "j < length rest div 4" by simp
    have idx: "4 * i = Suc (Suc (Suc (Suc (4 * j))))" using Suc by simp
    from "1.IH" [OF len j] show ?thesis unfolding idx by (simp add: add.commute)
  qed
qed simp_all

lemma pixel_bytes:
  assumes "\<forall>x\<in>set data. x \<le> (255::nat)" "length data mod 4 = 0" "i < length data div 4"
  shows "data ! (4 * i) \<le> 255" "data ! (4 * i + 1) \<le> 255" "data ! (4 * i + 2) \<le> 255"
proof -
  from assms(2,3) have "4 * i + 3 < length data" by (simp add: mod_eq_0_iff_dvd)
  then have "4 * i < length data" "4 * i + 1 < length data" "4 * i + 2 < length data" by simp_all
  with assms(1) show "data ! (4 * i) \<le> 255" "data ! (4 * i + 1) \<le> 255" "data ! (4 * i + 2) \<le> 255"
    by (simp_all add: nth_mem)
qed

text \<open>On these two pixels the exact sums of the red channel of the first and of the
  green channel of the second are 26.5 and 15.5; in doubles they are just above and
  just below, and the stored bytes are 27 and 15.\<close>

lemma sepiaLoop_two_pixels:
  "sepiaLoop [1, 31, 12, 255, 40, 2, 1, 0] = [27, 24, 18, 255, 17, 15, 12, 0]"
  by (simp add: sepiaR_def sepiaG_def sepiaB_def toUint8Clamp_def round64_eval_simps)

text \<open>
  Claim C7. For image data of bytes whose length is a multiple of four, the loop
  keeps the length and every output byte is at most 255. For every pixel \<open>i\<close>
  with channels \<open>r\<close>, \<open>g\<close>, \<open>b\<close> the three colour bytes of the output are the stored
  values of the three right-hand sides and the alpha byte is unchanged. Each
  right-hand side lies in \<open>[0, 255]\<close> and is the row of the fixed matrix
  \<open>R' = 0.393 R + 0.769 G + 0.189 B\<close>, \<open>G' = 0.349 R + 0.686 G + 0.168 B\<close>,
  \<open>B' = 0.272 R + 0.534 G + 0.131 B\<close>, clamped to \<open>[0, 255]\<close>, up to the rounding
  of doubles (less than \<open>10^-9\<close>). Each stored byte is an integer nearest to that
  clamped matrix value.
\<close>

theorem sepia_transform_in_range:
  assumes bytes: "\<forall>x\<in>set data. x \<le> 255"
    and len: "length data mod 4 = 0"
    and i: "i < length data div 4"
    and r: "r = data ! (4 * i)" and g: "g = data ! (4 * i + 1)" and b: "b = data ! (4 * i + 2)"
  shows "length (sepiaLoop data) = length data
     \<and> (\<forall>y\<in>set (sepiaLoop data). y \<le> 255)
     \<and> sepiaLoop data ! (4 * i) = toUint8Clamp (sepiaR r g b)
     \<and> sepiaLoop data ! (4 * i + 1) = toUint8Clamp (sepiaG r g b)
     \<and> sepiaLoop data ! (4 * i + 2) = toUint8Clamp (sepiaB r g b)
     \<and> sepiaLoop data ! (4 * i + 3) = data ! (4 * i + 3)
     \<and> \<bar>sepiaR r g b - clamp255 (0.393 * real r + 0.769 * real g + 0.189 * real b)\<bar> \<le> 1 / 10 ^ 9
     \<and> \<bar>sepiaG r g b - clamp255 (0.349 * real r + 0.686 * real g + 0.168 * real b)\<bar> \<le> 1 / 10 ^ 9
     \<and> \<bar>sepiaB r g b - clamp255 (0.272 * real r + 0.534 * real g + 0.131 * real b)\<bar> \<le> 1 / 10 ^ 9
     \<and> 0 \<le> sepiaR r g b \<and> sepiaR r g b \<le> 255
     \<and> 0 \<le> sepiaG r g b \<and> sepiaG r g b \<le> 255
     \<and> 0 \<le> sepiaB r g b \<and> sepiaB r g b \<le> 255
     \<and> \<bar>real (sepiaLoop data ! (4 * i))
          - clamp255 (0.393 * real r + 0.769 * real g + 0.189 * real b)\<bar> \<le> 1 / 2
     \<and> \<bar>real (sepiaLoop data ! (4 * i + 1))
          - clamp255 (0.349 * real r + 0.686 * real g + 0.168 * real b)\<bar> \<le> 1 / 2
     \<and> \<bar>real (sepiaLoop data ! (4 * i + 2))
          - clamp255 (0.272 * real r + 0.534 * real g + 0.131 * real b)\<bar> \<le> 1 / 2"
proof -
  have n: "r \<le> 255" "g \<le> 255" "b \<le> 255"
    unfolding r g b using pixel_bytes [OF bytes len i] by blast+
  note nth = sepiaLoop_nth [OF len i, folded r g b]
  note near = stored_channels_nearest [OF n]
  note err = sepiaR_err [OF n] sepiaG_err [OF n] sepiaB_err [OF n]
  note rng = sepia_channel_range [of r g b]
  have st: "\<bar>real (sepiaLoop data ! (4 * i))
          - clamp255 (0.393 * real r + 0.769 * real g + 0.189 * real b)\<bar> \<le> 1 / 2"
     "\<bar>real (sepiaLoop data ! (4 * i + 1))
          - clamp255 (0.349 * real r + 0.686 * real g + 0.168 * real b)\<bar> \<le> 1 / 2"
     "\<bar>real (sepiaLoop data ! (4 * i + 2))
          - clamp255 (0.272 * real r + 0.534 * real g + 0.131 * real b)\<bar> \<le> 1 / 2"
    using nth near by simp_all
  from sepiaLoop_length [of data] sepiaLoop_bytes [OF bytes] nth err rng st
  show ?thesis by blast
qed

theorem sepia_transform_in_range_witness:
  "list_all (\<lambda>x. x \<le> 255) [1, 31, 12, 255, 40, 2, 1, 0 :: nat]
   \<and> length [1, 31, 12, 255, 40, 2, 1, 0 :: nat] mod 4 = 0
   \<and> (1 :: nat) < length [1, 31, 12, 255, 40, 2, 1, 0 :: nat] div 4
   \<and> sepiaLoop [1, 31, 12, 255, 40, 2, 1, 0] = [27, 24, 18, 255, 17, 15, 12, 0]
   \<and> toUint8Clamp (sepiaR 40 2 1) = 17
   \<and> toUint8Clamp (sepiaG 40 2 1) = 15
   \<and> toUint8Clamp (sepiaB 40 2 1) = 12
   \<and> \<bar>sepiaG 40 2 1 - clamp255 (0.349 * real 40 + 0.686 * real 2 + 0.168 * real 1)\<bar> \<le> 1 / 10 ^ 9
   \<and> clamp255 (0.349 * real 40 + 0.686 * real 2 + 0.168 * real 1) = 15.5
   \<and> sepiaG 40 2 1 \<le> 255"
proof -
  define data :: "nat list" where "data = [1, 31, 12, 255, 40, 2, 1, 0]"
  have h1: "\<forall>x\<in>set data. x \<le> 255" unfolding data_def by simp
  have h2: "length data mod 4 = 0" unfolding data_def by simp
  have h3: "1 < length data div 4" unfolding data_def by simp
  have r: "40 = data ! (4 * 1)" and g: "2 = data ! (4 * 1 + 1)" and b: "1 = data ! (4 * 1 + 2)"
    unfolding data_def by simp_all
  note t = sepia_transform_in_range [OF h1 h2 h3 r g b]
  have out: "sepiaLoop data = [27, 24, 18, 255, 17, 15, 12, 0]"
    unfolding data_def by (rule sepiaLoop_two_pixels)
  have "sepiaLoop data ! (4 * 1) = 17" "sepiaLoop data ! (4 * 1 + 1) = 15"
    "sepiaLoop data ! (4 * 1 + 2) = 12"
    unfolding out by simp_all
  with t have st: "toUint8Clamp (sepiaR 40 2 1) = 17" "toUint8Clamp (sepiaG 40 2 1) = 15"
    "toUint8Clamp (sepiaB 40 2 1) = 12"
    by metis+
  from t have e: "\<bar>sepiaG 40 2 1 - clamp255 (0.349 * real 40 + 0.686 * real 2 + 0.168 * real 1)\<bar> \<le> 1 / 10 ^ 9"
    and u: "sepiaG 40 2 1 \<le> 255"
    by blast+
  have c: "clamp255 (0.349 * real 40 + 0.686 * real 2 + 0.168 * real 1) = 15.5"
    by (simp add: clamp255_def)
  have l: "list_all (\<lambda>x. x \<le> 255) data" using h1 by (simp add: list_all_iff)
  from l h2 h3 out st e c u show ?thesis unfolding data_def by blast
qed

section \<open>Rejecting an unsupported file\<close>

text \<open>
  Claim C9. When \<open>getFileType\<close> returns \<open>None\<close> for the selected or dropped file,
  the handler shows the message and returns the host state unchanged: every field
  keeps its prior value.
\<close>

theorem unsupported_rejection_atomic:
  "getFileType f = None \<Longrightarrow>
     handleFileSelect (Some f) s
       = (s, Some ''Please select a valid PDF, Word document, or text file'')
     \<and> handleDrop (Some f) s
       = (s, Some ''Please select a valid PDF, Word document, or text file'')"
  by (simp add: handleFileSelect_def handleDrop_def)

theorem unsupported_rejection_atomic_witness:
  "getFileType \<lparr>name = ''photo.png'', type = ''image/png''\<rparr> = None
   \<and> handleFileSelect (Some \<lparr>name = ''photo.png'', type = ''image/png''\<rparr>) initialState
       = (initialState, Some ''Please select a valid PDF, Word document, or text file'')
   \<and> handleDrop (Some \<lparr>name = ''photo.png'', type = ''image/png''\<rparr>) initialState
       = (initialState, Some ''Please select a valid PDF, Word document, or text file'')"
proof -
  have h: "getFileType \<lparr>name = ''photo.png'', type = ''image/png''\<rparr> = None"
    by (simp add: getFileType_def endsWith_def)
  from unsupported_rejection_atomic [OF h, of initialState] h show ?thesis by simp
qed

section \<open>Loading a PDF\<close>

text \<open>
  The claim that every successful load reports the document's page count fails
  for the iframe viewer: for a document of three pages the canvas viewer reports 3
  and the iframe viewer reports 100.
\<close>

theorem iframe_load_reports_placeholder:
  "totalPages (snd (loadPDF_canvas (Some \<lparr>numPages = 3\<rparr>)
      (\<lparr>isLoading = True, pdfDoc = None\<rparr>, initialState))) = 3
   \<and> totalPages (snd (loadPDF_iframe ''blob:doc''
      (\<lparr>pdfUrl = [], iframeIsLoading = True\<rparr>, initialState))) = 100"
  by (simp add: loadPDF_canvas_def loadPDF_iframe_def)

text \<open>
  Claim C5, amended. In the canvas viewer a successful load reports the decoder's
  page count to the host and keeps the decoded document; a failed load reports no
  count: the host state is unchanged, so after the selection of a PDF the count
  stays 0. The iframe viewer, which the host mounts, reports the placeholder count
  100 for every file. A load changes no field of the host state other than the
  page count.
\<close>

theorem loadPDF_reports_page_count:
  "totalPages (snd (loadPDF_canvas (Some pdf) (v, h))) = numPages pdf
   \<and> pdfDoc (fst (loadPDF_canvas (Some pdf) (v, h))) = Some pdf
   \<and> (snd (loadPDF_canvas (Some pdf) (v, h)))\<lparr>totalPages := totalPages h\<rparr> = h
   \<and> snd (loadPDF_canvas None (v, h)) = h
   \<and> pdfDoc (fst (loadPDF_canvas None (v, h))) = pdfDoc v
   \<and> totalPages (snd (loadPDF_iframe url (w, h))) = 100
   \<and> (snd (loadPDF_iframe url (w, h)))\<lparr>totalPages := totalPages h\<rparr> = h
   \<and> (getFileType f = Some Pdf \<longrightarrow>
        totalPages (snd (loadPDF_canvas (Some pdf) (v, fst (handleFileSelect (Some f) s))))
          = numPages pdf
        \<and> totalPages (snd (loadPDF_canvas None (v, fst (handleFileSelect (Some f) s)))) = 0
        \<and> totalPages (snd (loadPDF_iframe url (w, fst (handleFileSelect (Some f) s)))) = 100)"
  by (simp add: loadPDF_canvas_def loadPDF_iframe_def handleFileSelect_def)

theorem loadPDF_reports_page_count_witness:
  "getFileType \<lparr>name = ''book.pdf'', type = ''application/pdf''\<rparr> = Some Pdf
   \<and> totalPages (snd (loadPDF_canvas (Some \<lparr>numPages = 3\<rparr>)
        (\<lparr>isLoading = True, pdfDoc = None\<rparr>,
         fst (handleFileSelect (Some \<lparr>name = ''book.pdf'', type = ''application/pdf''\<rparr>)
                initialState)))) = 3
   \<and> totalPages (snd (loadPDF_canvas None
        (\<lparr>isLoading = True, pdfDoc = None\<rparr>,
         fst (handleFileSelect (Some \<lparr>name = ''book.pdf'', type = ''application/pdf''\<rparr>)
                initialState)))) = 0
   \<and> totalPages (snd (loadPDF_iframe ''blob:book''
        (\<lparr>pdfUrl = [], iframeIsLoading = True\<rparr>,
         fst (handleFileSelect (Some \<lparr>name = ''book.pdf'', type = ''application/pdf''\<rparr>)
                initialState)))) = 100"
proof -
  have h: "getFileType \<lparr>name = ''book.pdf'', type = ''application/pdf''\<rparr> = Some Pdf"
    by (simp add: getFileType_def)
  from h loadPDF_reports_page_count
    [of "\<lparr>numPages = 3\<rparr>" "\<lparr>isLoading = True, pdfDoc = None\<rparr>" initialState "''blob:book''"
      "\<lparr>pdfUrl = [], iframeIsLoading = True\<rparr>"
      "\<lparr>name = ''book.pdf'', type = ''application/pdf''\<rparr>" initialState]
  show ?thesis by simp
qed

section \<open>Decision order of format detection\<close>

lemma endsWith_last: "endsWith s suf \<Longrightarrow> suf \<noteq> [] \<Longrightarrow> last s = last suf"
proof -
  assume e: "endsWith s suf" and n: "suf \<noteq> []"
  from e have d: "drop (length s - length suf) s = suf" and l: "length suf \<le> length s"
    by (simp_all add: endsWith_def)
  from n l have "length s - length suf < length s" by (cases suf) simp_all
  then have "last (drop (length s - length suf) s) = last s" by (rule last_drop)
  with d show ?thesis by simp
qed

lemma endsWith_pdf_exclusive:
  "endsWith s ''.pdf'' \<Longrightarrow>
     \<not> endsWith s ''.docx'' \<and> \<not> endsWith s ''.doc'' \<and> \<not> endsWith s ''.txt''"
  using endsWith_last [of s "''.pdf''"] endsWith_last [of s "''.docx''"]
    endsWith_last [of s "''.doc''"] endsWith_last [of s "''.txt''"]
  by auto

lemma getFileType_examples:
  "getFileType (f\<lparr>name := ''report.docx'', type := ''''\<rparr>) = Some Word"
  "getFileType (f\<lparr>name := ''report.docx'', type := ''application/octet-stream''\<rparr>) = Some Word"
  "getFileType (f\<lparr>name := ''scan.txt'', type := ''application/pdf''\<rparr>) = Some Pdf"
  by (simp_all add: getFileType_def endsWith_def)

text \<open>A file named \<^verbatim>\<open>.pdf\<close> whose media type is unknown is not detected: the
  extension \<^verbatim>\<open>.pdf\<close> is not looked at.\<close>

lemma getFileType_pdf_extension_only:
  "getFileType \<lparr>name = ''paper.pdf'', type = ''''\<rparr> = None"
  by (simp add: getFileType_def endsWith_def)

text \<open>
  The media type does not always come first: a file named \<^verbatim>\<open>notes.docx\<close> with
  media type \<^verbatim>\<open>text/plain\<close> is classified Word by the code, where the media-type-first
  rule gives Text.
\<close>

theorem getFileType_extension_before_media_type:
  "getFileType \<lparr>name = ''notes.docx'', type = ''text/plain''\<rparr> = Some Word
   \<and> detect_spec \<lparr>name = ''notes.docx'', type = ''text/plain''\<rparr> = Some Text"
  by (simp add: getFileType_def detect_spec_def mediaTypeMatch_def extensionMatch_def endsWith_def)

text \<open>
  Claim C1, amended. Detection decides format by format, in the order PDF, Word,
  Text. The PDF media type gives PDF whatever the name. Otherwise a Word media type
  or a name ending in \<^verbatim>\<open>.docx\<close> or \<^verbatim>\<open>.doc\<close> gives Word, also when the media type
  is \<^verbatim>\<open>text/plain\<close>. Otherwise the media type \<^verbatim>\<open>text/plain\<close>, or a name ending in
  \<^verbatim>\<open>.txt\<close> with no known media type, gives Text. A file with no known media type
  and none of the four extensions is Unsupported. Except for a Word extension under
  \<^verbatim>\<open>text/plain\<close>, and leaving aside names ending in \<^verbatim>\<open>.pdf\<close> with no known
  media type, the result is that of the media-type-first rule. In particular
  \<^verbatim>\<open>report.docx\<close> with an absent or generic media type is Word, and a file with
  the PDF media type and a \<^verbatim>\<open>.txt\<close> name is PDF.
\<close>

theorem getFileType_decision_order:
  "(type f = ''application/pdf'' \<longrightarrow> getFileType f = Some Pdf)
   \<and> (type f \<noteq> ''application/pdf''
        \<and> (type f = ''application/vnd.openxmlformats-officedocument.wordprocessingml.document''
            \<or> type f = ''application/msword''
            \<or> endsWith (name f) ''.docx'' \<or> endsWith (name f) ''.doc'')
       \<longrightarrow> getFileType f = Some Word)
   \<and> (mediaTypeMatch f = Some Text \<and> extensionMatch f \<noteq> Some Word \<longrightarrow> getFileType f = Some Text)
   \<and> (mediaTypeMatch f = None \<and> extensionMatch f = Some Text \<longrightarrow> getFileType f = Some Text)
   \<and> (mediaTypeMatch f = None \<and> extensionMatch f = None \<longrightarrow> getFileType f = None)
   \<and> (\<not> (mediaTypeMatch f = Some Text \<and> extensionMatch f = Some Word)
        \<and> \<not> (mediaTypeMatch f = None \<and> endsWith (name f) ''.pdf'')
       \<longrightarrow> getFileType f = detect_spec f)
   \<and> getFileType (f\<lparr>name := ''report.docx'', type := ''''\<rparr>) = Some Word
   \<and> getFileType (f\<lparr>name := ''report.docx'', type := ''application/octet-stream''\<rparr>) = Some Word
   \<and> getFileType (f\<lparr>name := ''scan.txt'', type := ''application/pdf''\<rparr>) = Some Pdf"
proof -
  have general:
    "(type f = ''application/pdf'' \<longrightarrow> getFileType f = Some Pdf)
     \<and> (type f \<noteq> ''application/pdf''
          \<and> (type f = ''application/vnd.openxmlformats-officedocument.wordprocessingml.document''
              \<or> type f = ''application/msword''
              \<or> endsWith (name f) ''.docx'' \<or> endsWith (name f) ''.doc'')
         \<longrightarrow> getFileType f = Some Word)
     \<and> (mediaTypeMatch f = Some Text \<and> extensionMatch f \<noteq> Some Word \<longrightarrow> getFileType f = Some Text)
     \<and> (mediaTypeMatch f = None \<and> extensionMatch f = Some Text \<longrightarrow> getFileType f = Some Text)
     \<and> (mediaTypeMatch f = None \<and> extensionMatch f = None \<longrightarrow> getFileType f = None)
     \<and> (\<not> (mediaTypeMatch f = Some Text \<and> extensionMatch f = Some Word)
          \<and> \<not> (mediaTypeMatch f = None \<and> endsWith (name f) ''.pdf'')
         \<longrightarrow> getFileType f = detect_spec f)"
    using endsWith_pdf_exclusive [of "name f"]
    by (auto simp add: getFileType_def detect_spec_def mediaTypeMatch_def extensionMatch_def
        split: if_splits)
  from general getFileType_examples [of f] show ?thesis by blast
qed

theorem getFileType_decision_order_witness:
  "getFileType \<lparr>name = ''scan.txt'', type = ''application/pdf''\<rparr> = Some Pdf
   \<and> getFileType \<lparr>name = ''notes.docx'', type = ''text/plain''\<rparr> = Some Word
   \<and> getFileType \<lparr>name = ''letter.doc'', type = ''application/msword''\<rparr> = Some Word
   \<and> getFileType \<lparr>name = ''notes.txt'', type = ''text/plain''\<rparr> = Some Text
   \<and> getFileType \<lparr>name = ''readme.txt'', type = ''''\<rparr> = Some Text
   \<and> getFileType \<lparr>name = ''photo.png'', type = ''image/png''\<rparr> = None
   \<and> getFileType \<lparr>name = ''report.docx'', type = ''''\<rparr> = Some Word
   \<and> detect_spec \<lparr>name = ''report.docx'', type = ''''\<rparr> = Some Word"
  using getFileType_decision_order [of "\<lparr>name = ''scan.txt'', type = ''application/pdf''\<rparr>"]
    getFileType_decision_order [of "\<lparr>name = ''notes.docx'', type = ''text/plain''\<rparr>"]
    getFileType_decision_order [of "\<lparr>name = ''letter.doc'', type = ''application/msword''\<rparr>"]
    getFileType_decision_order [of "\<lparr>name = ''notes.txt'', type = ''text/plain''\<rparr>"]
    getFileType_decision_order [of "\<lparr>name = ''readme.txt'', type = ''''\<rparr>"]
    getFileType_decision_order [of "\<lparr>name = ''photo.png'', type = ''image/png''\<rparr>"]
    getFileType_decision_order [of "\<lparr>name = ''report.docx'', type = ''''\<rparr>"]
  by (simp add: detect_spec_def mediaTypeMatch_def extensionMatch_def endsWith_def)

section \<open>Page navigation and auto scroll\<close>

text \<open>The navigation commands of the host keep the page within the document.\<close>

lemma nextPage_invariant:
  "1 \<le> currentPage s \<Longrightarrow> currentPage s \<le> totalPages s \<Longrightarrow>
     1 \<le> currentPage (nextPage s) \<and> currentPage (nextPage s) \<le> totalPages (nextPage s)"
  by (simp add: nextPage_def)

lemma prevPage_invariant:
  "1 \<le> currentPage s \<Longrightarrow> currentPage s \<le> totalPages s \<Longrightarrow>
     1 \<le> currentPage (prevPage s) \<and> currentPage (prevPage s) \<le> totalPages (prevPage s)"
  by (simp add: prevPage_def)

lemma nextPage_clamp:
  "1 \<le> totalPages s \<Longrightarrow> 0 \<le> currentPage s \<Longrightarrow>
     currentPage (nextPage s) = max 1 (min (currentPage s + 1) (totalPages s))"
  by (simp add: nextPage_def)

lemma prevPage_clamp:
  "currentPage s \<le> totalPages s + 1 \<Longrightarrow> 1 \<le> totalPages s \<Longrightarrow>
     currentPage (prevPage s) = max 1 (min (currentPage s - 1) (totalPages s))"
  by (simp add: prevPage_def)

text \<open>Selecting a document, dropping one and closing the document reset the page
  to 1.\<close>

lemma document_change_resets_page:
  "getFileType f = Some t \<Longrightarrow>
     currentPage (fst (handleFileSelect (Some f) s)) = 1
     \<and> currentPage (fst (handleDrop (Some f) s)) = 1
     \<and> currentPage (handleGoHome s) = 1"
  by (simp add: handleFileSelect_def handleDrop_def handleGoHome_def)

text \<open>The tick of the canvas viewer advances by one page below the last page and
  wraps to page 1 from it.\<close>

lemma autoScrollTick_canvas_wraps:
  "currentPage (autoScrollTick_canvas pdf h) =
     (if currentPage h < numPages pdf then currentPage h + 1 else 1)"
  by (simp add: autoScrollTick_canvas_def)

lemma autoScrollTick_canvas_invariant:
  "1 \<le> currentPage h \<Longrightarrow> currentPage h \<le> numPages pdf \<Longrightarrow>
     1 \<le> currentPage (autoScrollTick_canvas pdf h)
     \<and> currentPage (autoScrollTick_canvas pdf h) \<le> numPages pdf"
  by (simp add: autoScrollTick_canvas_def)

text \<open>The tick of the iframe viewer only counts up.\<close>

lemma autoScrollTick_iframe_funpow:
  "currentPage ((autoScrollTick_iframe ^^ n) h) = currentPage h + int n
   \<and> totalPages ((autoScrollTick_iframe ^^ n) h) = totalPages h"
  by (induction n) (simp_all add: autoScrollTick_iframe_def)

lemma pdfSession_fields:
  "currentPage pdfSession = 1" "totalPages pdfSession = 100" "autoScroll pdfSession"
  "scrollSpeed pdfSession = 1" "fileType pdfSession = Some Pdf"
  by (simp_all add: pdfSession_def setAutoScroll_def loadPDF_iframe_def handleFileSelect_def
      getFileType_def initialState_def)

text \<open>
  Claim C2. The page invariant \<open>1 \<le> currentPage \<le> totalPages\<close> is broken in a
  reachable state of the host: in the session with the iframe viewer it holds up
  to the 99th tick of the auto scroll timer; the 100th tick gives page 101 of 100.
  From such a state \<^verbatim>\<open>prevPage\<close> does not clamp to \<open>totalPages\<close> either.
\<close>

theorem iframe_autoscroll_breaks_page_invariant:
  "pageInvariant pdfSession
   \<and> pageInvariant ((autoScrollTick_iframe ^^ 99) pdfSession)
   \<and> currentPage ((autoScrollTick_iframe ^^ 100) pdfSession) = 101
   \<and> totalPages ((autoScrollTick_iframe ^^ 100) pdfSession) = 100
   \<and> \<not> pageInvariant ((autoScrollTick_iframe ^^ 100) pdfSession)
   \<and> currentPage (prevPage ((autoScrollTick_iframe ^^ 105) pdfSession)) = 105"
  by (simp add: pageInvariant_def autoScrollTick_iframe_funpow pdfSession_fields prevPage_def)

text \<open>
  Claim C3. With auto scroll on at speed 1 the timer period is 3000 ms. On the last
  page (100 of 100) a tick of the iframe viewer gives page 101 instead of wrapping
  to page 1; the tick of the canvas viewer on the same state gives page 1.
\<close>

theorem iframe_autoscroll_does_not_wrap:
  "autoScrollInterval_iframe pdfSession = Some 3000
   \<and> currentPage (autoScrollTick_iframe (pdfSession\<lparr>currentPage := 100\<rparr>)) = 101
   \<and> currentPage (autoScrollTick_canvas \<lparr>numPages = 100\<rparr> (pdfSession\<lparr>currentPage := 100\<rparr>)) = 1"
  by (simp add: autoScrollInterval_iframe_def autoScrollTick_iframe_def
      autoScrollTick_canvas_def pdfSession_fields)

end
